theory Spec2Isabelle
  imports Complex_Main "HOL-Library.Multiset" "HOL-Library.List_Lexorder" "HOL-Library.Char_ord"
    "HOL-Library.Sublist"
begin

section \<open>Data model\<close>

text \<open>
  The dashboard \<^verbatim>\<open>streamlit_app.py\<close> reads one CSV file per season into a pandas
  DataFrame and derives every view from it. A DataFrame is modelled as the list of its
  numeric column names together with the list of its rows, in file order. A row carries
  the two string columns \<^verbatim>\<open>Player\<close> and \<^verbatim>\<open>Team\<close> and one numeric cell per column
  name (the raw metrics, their percentiles, \<^verbatim>\<open>Inn\<close>, \<^verbatim>\<open>Age\<close>); a cell is an exact
  real number, and \<open>None\<close> stands for pandas' NaN (an empty CSV cell). Only the cells
  of the columns the frame has are meaningful. The column \<^verbatim>\<open>disagreement_index\<close> that
  loading adds is a field of its own. Exceptions of the Python code are values of
  \<open>error\<close>.
\<close>

datatype error = KeyError | IndexError | ValueError | FileNotFoundError | NameError

record csv_row =
  Player :: string
  Team :: string
  vals :: "string \<Rightarrow> real option"

record df_row = csv_row +
  disagreement_index :: "real option"

record 'r frame =
  columns :: "string list"
  rows :: "'r list"

type_synonym dataframe = "df_row frame"

text \<open>A pandas Series obtained from a frame: the row, labelled by the frame's columns.\<close>

record series =
  index :: "string list"
  data :: df_row

section \<open>Configuration\<close>

definition RAW_METRICS :: "string list" where
  "RAW_METRICS = [''outs_above_average'', ''Rdrs'', ''Rtot'', ''DRP'', ''Fld%'', ''FRV'']"

definition PCT_METRICS :: "string list" where
  "PCT_METRICS =
     [''outs_above_average_percentile'',
      ''Rdrs_percentile'',
      ''Rtot_percentile'',
      ''DRP_percentile'',
      ''Fld%_percentile'',
      ''FRV_percentile'']"

definition LABEL :: "string \<rightharpoonup> string" where
  "LABEL = map_of
     [(''outs_above_average'', ''OAA''),
      (''outs_above_average_percentile'', ''OAA (pct)''),
      (''Rdrs'', ''DRS''),
      (''Rdrs_percentile'', ''DRS (pct)''),
      (''Rtot'', ''Total Zone''),
      (''Rtot_percentile'', ''Total Zone (pct)''),
      (''DRP'', ''DRP''),
      (''DRP_percentile'', ''DRP (pct)''),
      (''Fld%'', ''Fielding %''),
      (''Fld%_percentile'', ''Fielding % (pct)''),
      (''FRV'', ''FRV''),
      (''FRV_percentile'', ''FRV (pct)'')]"


section \<open>Sidebar: team filter and player selection\<close>

text \<open>
  \<^verbatim>\<open>Series.unique()\<close> keeps the first occurrence of every value, in order of appearance.
\<close>

fun unique_from :: "'a list \<Rightarrow> 'a list \<Rightarrow> 'a list" where
  "unique_from seen [] = []"
| "unique_from seen (x # xs) =
     (if x \<in> set seen then unique_from seen xs else x # unique_from (x # seen) xs)"

definition unique :: "'a list \<Rightarrow> 'a list" where
  "unique xs = unique_from [] xs"

text \<open>
  \<^verbatim>\<open>["(All)"] + sorted(df["Team"].unique().tolist())\<close>: the options of both team
  select boxes.
\<close>

definition team_options :: "dataframe \<Rightarrow> string list" where
  "team_options df = ''(All)'' # sort (unique (map Team (rows df)))"

text \<open>
  \<^verbatim>\<open>candidates = df if team == "(All)" else df[df["Team"] == team]\<close>. Boolean-mask
  indexing keeps the rows whose mask is true, in order, with the same columns.
\<close>

definition candidates :: "dataframe \<Rightarrow> string \<Rightarrow> dataframe" where
  "candidates df team =
     (if team = ''(All)'' then df
      else df\<lparr>rows := filter (\<lambda>r. Team r = team) (rows df)\<rparr>)"


text \<open>\<^verbatim>\<open>.iloc[0]\<close> raises IndexError on a frame with no rows.\<close>

definition iloc0 :: "dataframe \<Rightarrow> error + series" where
  "iloc0 fr =
     (case rows fr of
        [] \<Rightarrow> Inl IndexError
      | r # _ \<Rightarrow> Inr \<lparr>index = columns fr, data = r\<rparr>)"

text \<open>\<^verbatim>\<open>row = candidates[candidates["Player"] == player].iloc[0]\<close>\<close>

definition row :: "dataframe \<Rightarrow> string \<Rightarrow> error + series" where
  "row cands player = iloc0 (cands\<lparr>rows := filter (\<lambda>r. Player r = player) (rows cands)\<rparr>)"

section \<open>Loading a season\<close>

text \<open>
  \<^verbatim>\<open>DataFrame.std(axis=1, ddof=0)\<close> is pandas' \<^verbatim>\<open>nanstd\<close>, the square root of
  \<^verbatim>\<open>nanvar\<close>, applied to the cells of each row. \<^verbatim>\<open>nanvar\<close> counts the cells that are
  not NaN, gives NaN when that count is at most \<^verbatim>\<open>ddof\<close>, and otherwise replaces the
  NaN cells by 0, divides the sum by the count to get the average, sums the squared
  distances from the average over the cells that are not NaN, and divides by
  \<^verbatim>\<open>count - ddof\<close>.
\<close>

definition nanvar :: "nat \<Rightarrow> real option list \<Rightarrow> real option" where
  "nanvar ddof cells =
     (let count = length (filter (\<lambda>c. c \<noteq> None) cells)
      in if count \<le> ddof then None
         else
           let avg = sum_list (map (\<lambda>c. case c of None \<Rightarrow> 0 | Some v \<Rightarrow> v) cells) / real count;
               sqr = map (\<lambda>c. case c of None \<Rightarrow> 0 | Some v \<Rightarrow> (avg - v)\<^sup>2) cells
           in Some (sum_list sqr / real (count - ddof)))"

definition nanstd :: "nat \<Rightarrow> real option list \<Rightarrow> real option" where
  "nanstd ddof cells = map_option sqrt (nanvar ddof cells)"

text \<open>
  The file system as \<^verbatim>\<open>pd.read_csv\<close> sees it: the parsed table at each path that holds
  a readable CSV file.
\<close>

type_synonym files = "string \<rightharpoonup> csv_row frame"

definition read_csv :: "files \<Rightarrow> string \<Rightarrow> error + csv_row frame" where
  "read_csv fs csv_path =
     (case fs csv_path of None \<Rightarrow> Inl FileNotFoundError | Some t \<Rightarrow> Inr t)"

text \<open>
  \<^verbatim>\<open>load_df\<close>: read the file, keep the percentile columns the file has, and add the
  column \<^verbatim>\<open>disagreement_index\<close>, the row-wise \<^verbatim>\<open>std(axis=1, ddof=0)\<close> of those columns.
\<close>

definition load_df :: "files \<Rightarrow> string \<Rightarrow> error + dataframe" where
  "load_df fs csv_path =
     (case read_csv fs csv_path of
        Inl e \<Rightarrow> Inl e
      | Inr df \<Rightarrow>
          let existing_pct = filter (\<lambda>c. c \<in> set (columns df)) PCT_METRICS
          in Inr \<lparr>columns = columns df,
                  rows = map (\<lambda>r. \<lparr>Player = Player r, Team = Team r, vals = vals r,
                                    disagreement_index = nanstd 0 (map (vals r) existing_pct)\<rparr>)
                             (rows df)\<rparr>)"









section \<open>Profile: available metrics, best and worst\<close>

text \<open>\<^verbatim>\<open>row[m]\<close> raises KeyError when \<^verbatim>\<open>m\<close> is not a label of the Series.\<close>

definition getitem :: "series \<Rightarrow> string \<Rightarrow> error + real option" where
  "getitem rw m = (if m \<in> set (index rw) then Inr (vals (data rw) m) else Inl KeyError)"

text \<open>
  \<^verbatim>\<open>[m for m in PCT_METRICS if m in df.columns and pd.notna(row[m])]\<close>. The \<^verbatim>\<open>and\<close>
  evaluates \<^verbatim>\<open>row[m]\<close> only for a column of \<^verbatim>\<open>df\<close>; an exception of \<^verbatim>\<open>row[m]\<close> ends
  the comprehension.
\<close>

fun pct_cols_of :: "string list \<Rightarrow> dataframe \<Rightarrow> series \<Rightarrow> error + string list" where
  "pct_cols_of [] df rw = Inr []"
| "pct_cols_of (m # ms) df rw =
     (if m \<in> set (columns df) then
        (case getitem rw m of
           Inl e \<Rightarrow> Inl e
         | Inr v \<Rightarrow>
             (case pct_cols_of ms df rw of
                Inl e \<Rightarrow> Inl e
              | Inr rest \<Rightarrow> Inr (if v \<noteq> None then m # rest else rest)))
      else pct_cols_of ms df rw)"

definition player_pct_cols :: "dataframe \<Rightarrow> series \<Rightarrow> error + string list" where
  "player_pct_cols df rw = pct_cols_of PCT_METRICS df rw"

text \<open>Comparison of two cells as Python floats: every comparison with NaN is false.\<close>

fun float_gt :: "real option \<Rightarrow> real option \<Rightarrow> bool" where
  "float_gt (Some a) (Some b) = (a > b)"
| "float_gt _ _ = False"

fun float_lt :: "real option \<Rightarrow> real option \<Rightarrow> bool" where
  "float_lt (Some a) (Some b) = (a < b)"
| "float_lt _ _ = False"

text \<open>
  Python's \<^verbatim>\<open>max(xs, key=f)\<close> and \<^verbatim>\<open>min(xs, key=f)\<close>: ValueError on an empty sequence;
  otherwise the first item is the current choice and every later item replaces it only
  when its key is strictly greater (for \<^verbatim>\<open>min\<close>: strictly less) than the current key.
\<close>

fun scan_key ::
  "(real option \<Rightarrow> real option \<Rightarrow> bool) \<Rightarrow> ('a \<Rightarrow> error + real option) \<Rightarrow> 'a \<Rightarrow> real option \<Rightarrow>
   'a list \<Rightarrow> error + 'a" where
  "scan_key better key cur kcur [] = Inr cur"
| "scan_key better key cur kcur (x # xs) =
     (case key x of
        Inl e \<Rightarrow> Inl e
      | Inr kx \<Rightarrow>
          (if better kx kcur then scan_key better key x kx xs
           else scan_key better key cur kcur xs))"

definition py_max :: "('a \<Rightarrow> error + real option) \<Rightarrow> 'a list \<Rightarrow> error + 'a" where
  "py_max key xs =
     (case xs of
        [] \<Rightarrow> Inl ValueError
      | x # rest \<Rightarrow> (case key x of Inl e \<Rightarrow> Inl e | Inr kx \<Rightarrow> scan_key float_gt key x kx rest))"

definition py_min :: "('a \<Rightarrow> error + real option) \<Rightarrow> 'a list \<Rightarrow> error + 'a" where
  "py_min key xs =
     (case xs of
        [] \<Rightarrow> Inl ValueError
      | x # rest \<Rightarrow> (case key x of Inl e \<Rightarrow> Inl e | Inr kx \<Rightarrow> scan_key float_lt key x kx rest))"

text \<open>\<^verbatim>\<open>best = max(player_pct_cols, key=lambda m: row[m])\<close> and \<^verbatim>\<open>worst\<close> likewise.\<close>

definition best :: "series \<Rightarrow> string list \<Rightarrow> error + string" where
  "best rw cols = py_max (getitem rw) cols"

definition worst :: "series \<Rightarrow> string list \<Rightarrow> error + string" where
  "worst rw cols = py_min (getitem rw) cols"

text \<open>
  The story splitter: with at least one available metric it shows the best and the least
  favourable one, otherwise the notice that the player has no percentile data.
\<close>

datatype story = BestWorst string string | NoPercentileData

definition story_splitter :: "series \<Rightarrow> string list \<Rightarrow> error + story" where
  "story_splitter rw cols =
     (if cols \<noteq> [] then
        (case best rw cols of
           Inl e \<Rightarrow> Inl e
         | Inr b \<Rightarrow> (case worst rw cols of Inl e \<Rightarrow> Inl e | Inr w \<Rightarrow> Inr (BestWorst b w)))
      else Inr NoPercentileData)"

section \<open>Leaderboard\<close>

record leader_row =
  lb_Player :: string
  lb_Team :: string
  lb_value :: "real option"
  lb_disagreement_index :: "real option"

text \<open>
  \<^verbatim>\<open>lb_pool = df if lb_team == "(All)" else df[df["Team"] == lb_team]\<close>, then
  \<^verbatim>\<open>lb_pool = lb_pool[lb_pool[sort_metric].notna()]\<close>, where selecting a column the
  frame does not have raises KeyError.
\<close>

definition lb_pool :: "dataframe \<Rightarrow> string \<Rightarrow> string \<Rightarrow> error + dataframe" where
  "lb_pool df lb_team sort_metric =
     (let pool = (if lb_team = ''(All)'' then df
                  else df\<lparr>rows := filter (\<lambda>r. Team r = lb_team) (rows df)\<rparr>)
      in if sort_metric \<in> set (columns pool)
         then Inr (pool\<lparr>rows := filter (\<lambda>r. vals r sort_metric \<noteq> None) (rows pool)\<rparr>)
         else Inl KeyError)"

text \<open>
  \<^verbatim>\<open>sort_values(sort_metric, ascending=False)\<close> runs with pandas' default
  \<^verbatim>\<open>kind='quicksort'\<close>, which pandas and NumPy document as not stable: the result holds
  the rows that are not NaN in the column, in non-increasing order of the column, followed
  by the NaN rows in their original order, and the relative order of rows with equal
  values is not determined. The operation is therefore a relation between the rows before
  and the rows after.
\<close>

fun float_ge :: "real option \<Rightarrow> real option \<Rightarrow> bool" where
  "float_ge (Some a) (Some b) = (a \<ge> b)"
| "float_ge _ _ = False"

definition sort_values :: "string \<Rightarrow> df_row list \<Rightarrow> df_row list \<Rightarrow> bool" where
  "sort_values by_col xs ys =
     (let k = length (filter (\<lambda>r. vals r by_col \<noteq> None) xs)
      in mset (take k ys) = mset (filter (\<lambda>r. vals r by_col \<noteq> None) xs)
         \<and> sorted_wrt (\<lambda>a b. float_ge (vals a by_col) (vals b by_col)) (take k ys)
         \<and> drop k ys = filter (\<lambda>r. vals r by_col = None) xs)"

text \<open>
  \<^verbatim>\<open>head(n)\<close>: the first \<^verbatim>\<open>n\<close> rows, and for a negative \<^verbatim>\<open>n\<close> all rows but the last
  \<^verbatim>\<open>-n\<close>.
\<close>

definition head :: "int \<Rightarrow> 'a list \<Rightarrow> 'a list" where
  "head n xs = (if 0 \<le> n then take (nat n) xs else take (length xs - nat (- n)) xs)"

text \<open>
  The column selection \<^verbatim>\<open>[["Player", "Team", sort_metric, "disagreement_index"]]\<close>
  on one row.
\<close>

definition select_columns :: "string \<Rightarrow> df_row \<Rightarrow> leader_row" where
  "select_columns sort_metric r =
     \<lparr>lb_Player = Player r, lb_Team = Team r, lb_value = vals r sort_metric,
      lb_disagreement_index = disagreement_index r\<rparr>"

text \<open>
  The column selection, \<^verbatim>\<open>head(int(top_n))\<close> and the renaming of the metric column to
  \<^verbatim>\<open>LABEL[sort_metric]\<close>, applied to the sorted rows.
\<close>

definition leader_of :: "string \<Rightarrow> int \<Rightarrow> df_row list \<Rightarrow> error + leader_row frame" where
  "leader_of sort_metric top_n sorted_rows =
     (let top = head top_n (map (select_columns sort_metric) sorted_rows)
      in case LABEL sort_metric of
           None \<Rightarrow> Inl KeyError
         | Some label \<Rightarrow>
             Inr \<lparr>columns = [''Player'', ''Team'', label, ''disagreement_index''], rows = top\<rparr>)"

text \<open>The leaderboard: every outcome the statements of the script can produce.\<close>

definition leader ::
  "dataframe \<Rightarrow> string \<Rightarrow> string \<Rightarrow> int \<Rightarrow> error + leader_row frame \<Rightarrow> bool" where
  "leader df lb_team sort_metric top_n res =
     (case lb_pool df lb_team sort_metric of
        Inl e \<Rightarrow> res = Inl e
      | Inr pool \<Rightarrow>
          (\<exists>sorted_rows. sort_values sort_metric (rows pool) sorted_rows
             \<and> res = leader_of sort_metric top_n sorted_rows))"

text \<open>
  One outcome of \<^verbatim>\<open>sort_values\<close> always exists: the insertion sort that keeps equal
  values in their order.
\<close>

fun insert_desc :: "string \<Rightarrow> df_row \<Rightarrow> df_row list \<Rightarrow> df_row list" where
  "insert_desc by_col r [] = [r]"
| "insert_desc by_col r (x # xs) =
     (if float_ge (vals x by_col) (vals r by_col) then x # insert_desc by_col r xs
      else r # x # xs)"

definition stable_sort_desc :: "string \<Rightarrow> df_row list \<Rightarrow> df_row list" where
  "stable_sort_desc by_col xs =
     foldr (insert_desc by_col) (filter (\<lambda>r. vals r by_col \<noteq> None) xs) []
     @ filter (\<lambda>r. vals r by_col = None) xs"

section \<open>The script after loading\<close>











section \<open>Example tables\<close>

text \<open>
  The table of the specification's leaderboard example: players A and B of TeamX with
  OAA percentile 90 and player C of TeamY with OAA percentile 40, no other data.
\<close>

definition only_oaa_pct :: "real \<Rightarrow> string \<Rightarrow> real option" where
  "only_oaa_pct v = (\<lambda>m. if m = ''outs_above_average_percentile'' then Some v else None)"

definition csv_A :: csv_row where
  "csv_A = \<lparr>Player = ''A'', Team = ''TeamX'', vals = only_oaa_pct 90\<rparr>"

definition csv_B :: csv_row where
  "csv_B = \<lparr>Player = ''B'', Team = ''TeamX'', vals = only_oaa_pct 90\<rparr>"

definition csv_C :: csv_row where
  "csv_C = \<lparr>Player = ''C'', Team = ''TeamY'', vals = only_oaa_pct 40\<rparr>"

definition example_csv :: "csv_row frame" where
  "example_csv = \<lparr>columns = PCT_METRICS, rows = [csv_A, csv_B, csv_C]\<rparr>"

definition row_A :: df_row where
  "row_A = \<lparr>Player = ''A'', Team = ''TeamX'', vals = only_oaa_pct 90,
            disagreement_index = Some 0\<rparr>"

definition row_B :: df_row where
  "row_B = \<lparr>Player = ''B'', Team = ''TeamX'', vals = only_oaa_pct 90,
            disagreement_index = Some 0\<rparr>"

definition row_C :: df_row where
  "row_C = \<lparr>Player = ''C'', Team = ''TeamY'', vals = only_oaa_pct 40,
            disagreement_index = Some 0\<rparr>"

definition example_df :: dataframe where
  "example_df = \<lparr>columns = PCT_METRICS, rows = [row_A, row_B, row_C]\<rparr>"

text \<open>
  The two leaderboards of the first two players of \<open>example_df\<close> by OAA percentile,
  which differ in the order of the tied players A and B.
\<close>

definition leaders_AB :: "leader_row frame" where
  "leaders_AB =
     \<lparr>columns = [''Player'', ''Team'', ''OAA (pct)'', ''disagreement_index''],
      rows = [select_columns ''outs_above_average_percentile'' row_A,
              select_columns ''outs_above_average_percentile'' row_B]\<rparr>"



text \<open>
  A table of a file without the FRV percentile column: player D has the percentiles
  80, 80, 20, 20 for OAA, DRS, Total Zone and DRP and no fielding percentage, player E
  has no percentile at all.
\<close>

definition vals_D :: "string \<Rightarrow> real option" where
  "vals_D =
     (\<lambda>m. if m = ''outs_above_average_percentile'' then Some 80
          else if m = ''Rdrs_percentile'' then Some 80
          else if m = ''Rtot_percentile'' then Some 20
          else if m = ''DRP_percentile'' then Some 20
          else None)"

definition csv_D :: csv_row where
  "csv_D = \<lparr>Player = ''D'', Team = ''TeamY'', vals = vals_D\<rparr>"

definition csv_E :: csv_row where
  "csv_E = \<lparr>Player = ''E'', Team = ''TeamY'', vals = (\<lambda>m. None)\<rparr>"

definition columns_no_FRV :: "string list" where
  "columns_no_FRV =
     [''outs_above_average_percentile'', ''Rdrs_percentile'', ''Rtot_percentile'',
      ''DRP_percentile'', ''Fld%_percentile'']"

definition partial_csv :: "csv_row frame" where
  "partial_csv = \<lparr>columns = columns_no_FRV, rows = [csv_D, csv_E]\<rparr>"

definition row_D :: df_row where
  "row_D = \<lparr>Player = ''D'', Team = ''TeamY'', vals = vals_D, disagreement_index = Some 30\<rparr>"

definition row_E :: df_row where
  "row_E = \<lparr>Player = ''E'', Team = ''TeamY'', vals = (\<lambda>m. None),
            disagreement_index = None\<rparr>"

definition partial_df :: dataframe where
  "partial_df = \<lparr>columns = columns_no_FRV, rows = [row_D, row_E]\<rparr>"

text \<open>A file system holding the two example files under the names of \<^verbatim>\<open>DATA_FILES\<close>.\<close>

definition example_files :: files where
  "example_files =
     [''defensive_metrics_25.csv'' \<mapsto> partial_csv, ''defensive_metrics_24.csv'' \<mapsto> example_csv]"

section \<open>Facts about the example tables\<close>

lemma example_fields:
  "Player row_A = ''A''" "Team row_A = ''TeamX''" "vals row_A = only_oaa_pct 90"
  "disagreement_index row_A = Some 0"
  "Player row_B = ''B''" "Team row_B = ''TeamX''" "vals row_B = only_oaa_pct 90"
  "disagreement_index row_B = Some 0"
  "Player row_C = ''C''" "Team row_C = ''TeamY''" "vals row_C = only_oaa_pct 40"
  "disagreement_index row_C = Some 0"
  by (simp_all add: row_A_def row_B_def row_C_def)

lemma partial_fields:
  "Player row_D = ''D''" "Team row_D = ''TeamY''" "vals row_D = vals_D"
  "disagreement_index row_D = Some 30"
  "Player row_E = ''E''" "Team row_E = ''TeamY''" "vals row_E = (\<lambda>m. None)"
  "disagreement_index row_E = None"
  by (simp_all add: row_D_def row_E_def)

section \<open>Team filter\<close>





section \<open>Player resolution\<close>

lemma filter_find_None: "(filter P xs = []) = (find P xs = None)"
  by (induction xs) auto

lemma find_Some_filter: "find P xs = Some x \<Longrightarrow> \<exists>ys. filter P xs = x # ys"
  by (induction xs) (auto split: if_splits)

lemma find_Some_split:
  "find P xs = Some x \<Longrightarrow> \<exists>pre post. xs = pre @ x # post \<and> P x \<and> (\<forall>y \<in> set pre. \<not> P y)"
proof (induction xs)
  case Nil
  then show ?case by simp
next
  case (Cons a xs)
  show ?case
  proof (cases "P a")
    case True
    with Cons.prems have "a = x" by simp
    with True have "a # xs = [] @ x # xs \<and> P x \<and> (\<forall>y \<in> set []. \<not> P y)" by simp
    then show ?thesis by blast
  next
    case False
    with Cons.prems have "find P xs = Some x" by simp
    from Cons.IH[OF this] obtain pre post
      where "xs = pre @ x # post" "P x" "\<forall>y \<in> set pre. \<not> P y" by blast
    with False have "a # xs = (a # pre) @ x # post \<and> P x \<and> (\<forall>y \<in> set (a # pre). \<not> P y)"
      by simp
    then show ?thesis by blast
  qed
qed

lemma row_find:
  "row cands player =
     (case find (\<lambda>r. Player r = player) (rows cands) of
        None \<Rightarrow> Inl IndexError
      | Some r \<Rightarrow> Inr \<lparr>index = columns cands, data = r\<rparr>)"
proof (cases "find (\<lambda>r. Player r = player) (rows cands)")
  case None
  then have "filter (\<lambda>r. Player r = player) (rows cands) = []"
    by (simp add: filter_find_None)
  with None show ?thesis by (simp add: row_def iloc0_def)
next
  case (Some r)
  from find_Some_filter[OF this] obtain ys
    where "filter (\<lambda>r. Player r = player) (rows cands) = r # ys" by blast
  with Some show ?thesis by (simp add: row_def iloc0_def)
qed


text \<open>
  Claim C7. Resolving a player name in a (possibly team-filtered) table returns the first
  row, in table order, whose \<^verbatim>\<open>Player\<close> field equals the name; it fails exactly when
  no row has that name, and the failure is the IndexError of \<^verbatim>\<open>.iloc[0]\<close> on an empty
  selection, which is the specification's PlayerNotFound.
\<close>

theorem row_first_match:
  "row cands player =
     (case find (\<lambda>r. Player r = player) (rows cands) of
        None \<Rightarrow> Inl IndexError
      | Some r \<Rightarrow> Inr \<lparr>index = columns cands, data = r\<rparr>)
   \<and> ((\<exists>e. row cands player = Inl e) \<longleftrightarrow> (\<forall>r \<in> set (rows cands). Player r \<noteq> player))
   \<and> (\<forall>e. row cands player = Inl e \<longrightarrow> e = IndexError)
   \<and> (\<forall>s. row cands player = Inr s \<longrightarrow>
         (\<exists>pre post. rows cands = pre @ data s # post \<and> Player (data s) = player
            \<and> (\<forall>x \<in> set pre. Player x \<noteq> player)))"
proof -
  let ?P = "\<lambda>r. Player r = player"
  have none: "(\<exists>e. row cands player = Inl e) \<longleftrightarrow> (\<forall>r \<in> set (rows cands). Player r \<noteq> player)"
  proof (cases "find ?P (rows cands)")
    case None
    then have "\<exists>e. row cands player = Inl e" by (simp add: row_find)
    moreover from None have "\<forall>r \<in> set (rows cands). Player r \<noteq> player"
      by (simp add: find_None_iff)
    ultimately show ?thesis by blast
  next
    case (Some r)
    from find_Some_split[OF this] have "\<exists>r \<in> set (rows cands). Player r = player" by auto
    moreover from Some have "\<not> (\<exists>e. row cands player = Inl e)" by (simp add: row_find)
    ultimately show ?thesis by blast
  qed
  have err: "\<forall>e. row cands player = Inl e \<longrightarrow> e = IndexError"
    by (auto simp: row_find split: option.splits)
  have first: "\<forall>s. row cands player = Inr s \<longrightarrow>
         (\<exists>pre post. rows cands = pre @ data s # post \<and> Player (data s) = player
            \<and> (\<forall>x \<in> set pre. Player x \<noteq> player))"
  proof (intro allI impI)
    fix s assume "row cands player = Inr s"
    then obtain r where f: "find ?P (rows cands) = Some r" and s: "data s = r"
      by (auto simp: row_find split: option.splits)
    from find_Some_split[OF f] s
    show "\<exists>pre post. rows cands = pre @ data s # post \<and> Player (data s) = player
            \<and> (\<forall>x \<in> set pre. Player x \<noteq> player)"
      by simp
  qed
  from row_find none err first show ?thesis by blast
qed

theorem row_first_match_witness:
  "row example_df ''B'' = Inr \<lparr>index = PCT_METRICS, data = row_B\<rparr>
   \<and> rows example_df = [row_A] @ row_B # [row_C]
   \<and> Player row_A \<noteq> ''B''
   \<and> row example_df ''Z'' = Inl IndexError
   \<and> Player row_A \<noteq> ''Z'' \<and> Player row_B \<noteq> ''Z'' \<and> Player row_C \<noteq> ''Z''"
  using row_first_match [of example_df "''B''"] row_first_match [of example_df "''Z''"]
  by (simp add: example_df_def example_fields)

section \<open>Player selection\<close>



section \<open>Available percentile metrics\<close>

lemma pct_cols_of_filter:
  "pct_cols_of ms df \<lparr>index = columns df, data = r\<rparr>
     = Inr (filter (\<lambda>m. m \<in> set (columns df) \<and> vals r m \<noteq> None) ms)"
  by (induction ms) (auto simp: getitem_def)

lemma distinct_PCT_METRICS: "distinct PCT_METRICS"
  by (simp add: PCT_METRICS_def)

text \<open>
  Claim C6. For every record of the table, the available percentile metrics are computed
  without an exception and are exactly the metrics of \<^verbatim>\<open>PCT_METRICS\<close> whose column the
  table has and whose value in the record is not null, in the order of \<^verbatim>\<open>PCT_METRICS\<close>,
  which is the canonical order OAA, DRS, Total Zone, DRP, Fielding %, FRV. A record
  with no percentile value gives the empty sequence, and on the empty sequence the story
  splitter shows its no-data notice instead of failing.
\<close>

theorem player_pct_cols_available:
  "(\<exists>cols. player_pct_cols df \<lparr>index = columns df, data = r\<rparr> = Inr cols
      \<and> cols = filter (\<lambda>m. m \<in> set (columns df) \<and> vals r m \<noteq> None) PCT_METRICS
      \<and> set cols = {m \<in> set PCT_METRICS. m \<in> set (columns df) \<and> vals r m \<noteq> None}
      \<and> subseq cols PCT_METRICS \<and> distinct cols)
   \<and> player_pct_cols df \<lparr>index = columns df, data = r\<lparr>vals := \<lambda>m. None\<rparr>\<rparr> = Inr []
   \<and> story_splitter \<lparr>index = columns df, data = r\<rparr> [] = Inr NoPercentileData
   \<and> PCT_METRICS = map (\<lambda>m. m @ ''_percentile'') RAW_METRICS
   \<and> map LABEL RAW_METRICS
       = [Some ''OAA'', Some ''DRS'', Some ''Total Zone'', Some ''DRP'', Some ''Fielding %'',
          Some ''FRV'']"
proof -
  let ?P = "\<lambda>m. m \<in> set (columns df) \<and> vals r m \<noteq> None"
  have run: "player_pct_cols df \<lparr>index = columns df, data = r\<rparr> = Inr (filter ?P PCT_METRICS)"
    by (simp add: player_pct_cols_def pct_cols_of_filter)
  have mem: "set (filter ?P PCT_METRICS) = {m \<in> set PCT_METRICS. ?P m}"
    by auto
  have ord: "subseq (filter ?P PCT_METRICS) PCT_METRICS"
    by simp
  have dis: "distinct (filter ?P PCT_METRICS)"
    using distinct_PCT_METRICS by simp
  have none: "player_pct_cols df \<lparr>index = columns df, data = r\<lparr>vals := \<lambda>m. None\<rparr>\<rparr> = Inr []"
    by (simp add: player_pct_cols_def pct_cols_of_filter)
  have story: "story_splitter \<lparr>index = columns df, data = r\<rparr> [] = Inr NoPercentileData"
    by (simp add: story_splitter_def)
  have names: "PCT_METRICS = map (\<lambda>m. m @ ''_percentile'') RAW_METRICS"
    by (simp add: PCT_METRICS_def RAW_METRICS_def)
  have labels: "map LABEL RAW_METRICS
       = [Some ''OAA'', Some ''DRS'', Some ''Total Zone'', Some ''DRP'', Some ''Fielding %'',
          Some ''FRV'']"
    by (simp add: LABEL_def RAW_METRICS_def)
  from run mem ord dis none story names labels show ?thesis by simp
qed

theorem player_pct_cols_available_witness:
  "player_pct_cols partial_df \<lparr>index = columns partial_df, data = row_D\<rparr>
     = Inr [''outs_above_average_percentile'', ''Rdrs_percentile'', ''Rtot_percentile'',
            ''DRP_percentile'']
   \<and> player_pct_cols partial_df \<lparr>index = columns partial_df, data = row_E\<rparr> = Inr []"
proof -
  have e: "row_E\<lparr>vals := \<lambda>m. None\<rparr> = row_E"
    by (simp add: row_E_def)
  have d: "filter (\<lambda>m. m \<in> set (columns partial_df) \<and> vals row_D m \<noteq> None) PCT_METRICS
     = [''outs_above_average_percentile'', ''Rdrs_percentile'', ''Rtot_percentile'',
        ''DRP_percentile'']"
    by (simp add: PCT_METRICS_def partial_df_def columns_no_FRV_def partial_fields vals_D_def)
  from player_pct_cols_available [of partial_df row_D] d
  have D: "player_pct_cols partial_df \<lparr>index = columns partial_df, data = row_D\<rparr>
     = Inr [''outs_above_average_percentile'', ''Rdrs_percentile'', ''Rtot_percentile'',
            ''DRP_percentile'']"
    by simp
  from player_pct_cols_available [of partial_df row_E]
  have "player_pct_cols partial_df
      \<lparr>index = columns partial_df, data = row_E\<lparr>vals := \<lambda>m. None\<rparr>\<rparr> = Inr []"
    by blast
  with e have E: "player_pct_cols partial_df \<lparr>index = columns partial_df, data = row_E\<rparr> = Inr []"
    by simp
  from D E show ?thesis by simp
qed

section \<open>Best and worst metric\<close>

lemma scan_key_first:
  fixes R :: "real \<Rightarrow> real \<Rightarrow> bool"
  assumes better: "\<And>a b. better (Some a) (Some b) = R a b"
    and step: "\<And>x c m. R x c \<Longrightarrow> \<not> R m c \<Longrightarrow> R x m"
    and asym: "\<And>x m. R x m \<Longrightarrow> \<not> R m x"
  shows "\<forall>m \<in> set xs. key m = Inr (Some (f m)) \<Longrightarrow>
     \<forall>m \<in> set pre. R (f cur) (f m) \<Longrightarrow>
     \<forall>m \<in> set mid. \<not> R (f m) (f cur) \<Longrightarrow>
     \<exists>b pre' post'. scan_key better key cur (Some (f cur)) xs = Inr b
        \<and> pre @ cur # mid @ xs = pre' @ b # post'
        \<and> (\<forall>m \<in> set pre'. R (f b) (f m)) \<and> (\<forall>m \<in> set post'. \<not> R (f m) (f b))"
proof (induction xs arbitrary: pre cur mid)
  case Nil
  then show ?case by auto
next
  case (Cons x xs)
  from Cons.prems(1) have kx: "key x = Inr (Some (f x))"
    and rest: "\<forall>m \<in> set xs. key m = Inr (Some (f m))" by simp_all
  show ?case
  proof (cases "R (f x) (f cur)")
    case True
    have before: "\<forall>m \<in> set (pre @ cur # mid). R (f x) (f m)"
    proof
      fix m assume "m \<in> set (pre @ cur # mid)"
      then consider "m \<in> set pre" | "m = cur" | "m \<in> set mid" by auto
      then show "R (f x) (f m)"
      proof cases
        case 1
        with Cons.prems(2) have "R (f cur) (f m)" by simp
        then have "\<not> R (f m) (f cur)" by (rule asym)
        with True show ?thesis by (rule step)
      next
        case 2
        with True show ?thesis by simp
      next
        case 3
        with Cons.prems(3) have "\<not> R (f m) (f cur)" by simp
        with True show ?thesis by (rule step)
      qed
    qed
    have "\<forall>m \<in> set []. \<not> R (f m) (f x)" by simp
    from Cons.IH[OF rest before this] obtain b pre' post'
      where "scan_key better key x (Some (f x)) xs = Inr b"
        "(pre @ cur # mid) @ x # [] @ xs = pre' @ b # post'"
        "\<forall>m \<in> set pre'. R (f b) (f m)" "\<forall>m \<in> set post'. \<not> R (f m) (f b)"
      by blast
    with True kx better show ?thesis by auto
  next
    case False
    with Cons.prems(3) have mid': "\<forall>m \<in> set (mid @ [x]). \<not> R (f m) (f cur)" by simp
    from Cons.IH[OF rest Cons.prems(2) mid'] obtain b pre' post'
      where "scan_key better key cur (Some (f cur)) xs = Inr b"
        "pre @ cur # (mid @ [x]) @ xs = pre' @ b # post'"
        "\<forall>m \<in> set pre'. R (f b) (f m)" "\<forall>m \<in> set post'. \<not> R (f m) (f b)"
      by blast
    with False kx better show ?thesis by auto
  qed
qed


lemma best_available:
  assumes ne: "cols \<noteq> []"
    and av: "\<forall>m \<in> set cols. m \<in> set (index rw) \<and> vals (data rw) m \<noteq> None"
  shows "\<exists>b pre post. best rw cols = Inr b \<and> cols = pre @ b # post
     \<and> (\<forall>m \<in> set pre. float_gt (vals (data rw) b) (vals (data rw) m))
     \<and> (\<forall>m \<in> set post. float_ge (vals (data rw) b) (vals (data rw) m))"
proof -
  let ?v = "\<lambda>m. vals (data rw) m"
  let ?f = "\<lambda>m. the (?v m)"
  from ne obtain x xs where cols: "cols = x # xs" by (cases cols) auto
  from av have key: "\<forall>m \<in> set cols. getitem rw m = Inr (Some (?f m))"
    by (auto simp: getitem_def)
  from av have some: "\<forall>m \<in> set cols. ?v m = Some (?f m)" by auto
  have "\<exists>b pre' post'. scan_key float_gt (getitem rw) x (Some (?f x)) xs = Inr b
        \<and> [] @ x # [] @ xs = pre' @ b # post'
        \<and> (\<forall>m \<in> set pre'. ?f b > ?f m) \<and> (\<forall>m \<in> set post'. \<not> ?f m > ?f b)"
    by (rule scan_key_first [where R = "\<lambda>a b. a > b" and f = ?f]) (use key cols in auto)
  then obtain b pre post
    where run: "scan_key float_gt (getitem rw) x (Some (?f x)) xs = Inr b"
      and split: "cols = pre @ b # post"
      and pre: "\<forall>m \<in> set pre. ?f b > ?f m" and post: "\<forall>m \<in> set post. \<not> ?f m > ?f b"
    using cols by auto
  from run key cols have "best rw cols = Inr b"
    by (simp add: best_def py_max_def)
  moreover have "\<forall>m \<in> set pre. float_gt (?v b) (?v m)"
  proof
    fix m assume m: "m \<in> set pre"
    with split some have "?v m = Some (?f m)" "?v b = Some (?f b)" by auto
    with pre m show "float_gt (?v b) (?v m)" by (metis float_gt.simps(1))
  qed
  moreover have "\<forall>m \<in> set post. float_ge (?v b) (?v m)"
  proof
    fix m assume m: "m \<in> set post"
    with split some have "?v m = Some (?f m)" "?v b = Some (?f b)" by auto
    moreover from post m have "?f b \<ge> ?f m" by auto
    ultimately show "float_ge (?v b) (?v m)" by (metis float_ge.simps(1))
  qed
  ultimately show ?thesis using split by blast
qed

lemma worst_available:
  assumes ne: "cols \<noteq> []"
    and av: "\<forall>m \<in> set cols. m \<in> set (index rw) \<and> vals (data rw) m \<noteq> None"
  shows "\<exists>b pre post. worst rw cols = Inr b \<and> cols = pre @ b # post
     \<and> (\<forall>m \<in> set pre. float_lt (vals (data rw) b) (vals (data rw) m))
     \<and> (\<forall>m \<in> set post. float_ge (vals (data rw) m) (vals (data rw) b))"
proof -
  let ?v = "\<lambda>m. vals (data rw) m"
  let ?f = "\<lambda>m. the (?v m)"
  from ne obtain x xs where cols: "cols = x # xs" by (cases cols) auto
  from av have key: "\<forall>m \<in> set cols. getitem rw m = Inr (Some (?f m))"
    by (auto simp: getitem_def)
  from av have some: "\<forall>m \<in> set cols. ?v m = Some (?f m)" by auto
  have "\<exists>b pre' post'. scan_key float_lt (getitem rw) x (Some (?f x)) xs = Inr b
        \<and> [] @ x # [] @ xs = pre' @ b # post'
        \<and> (\<forall>m \<in> set pre'. ?f b < ?f m) \<and> (\<forall>m \<in> set post'. \<not> ?f m < ?f b)"
    by (rule scan_key_first [where R = "\<lambda>a b. a < b" and f = ?f]) (use key cols in auto)
  then obtain b pre post
    where run: "scan_key float_lt (getitem rw) x (Some (?f x)) xs = Inr b"
      and split: "cols = pre @ b # post"
      and pre: "\<forall>m \<in> set pre. ?f b < ?f m" and post: "\<forall>m \<in> set post. \<not> ?f m < ?f b"
    using cols by auto
  from run key cols have "worst rw cols = Inr b"
    by (simp add: worst_def py_min_def)
  moreover have "\<forall>m \<in> set pre. float_lt (?v b) (?v m)"
  proof
    fix m assume m: "m \<in> set pre"
    with split some have "?v m = Some (?f m)" "?v b = Some (?f b)" by auto
    with pre m show "float_lt (?v b) (?v m)" by (metis float_lt.simps(1))
  qed
  moreover have "\<forall>m \<in> set post. float_ge (?v m) (?v b)"
  proof
    fix m assume m: "m \<in> set post"
    with split some have "?v m = Some (?f m)" "?v b = Some (?f b)" by auto
    moreover from post m have "?f m \<ge> ?f b" by auto
    ultimately show "float_ge (?v m) (?v b)" by (metis float_ge.simps(1))
  qed
  ultimately show ?thesis using split by blast
qed


lemma float_gt_ge: "float_gt a b \<Longrightarrow> float_ge a b"
  by (cases a; cases b) auto

lemma float_lt_ge: "float_lt a b \<Longrightarrow> float_ge b a"
  by (cases a; cases b) auto

lemma float_ge_refl: "a \<noteq> None \<Longrightarrow> float_ge a a"
  by (cases a) auto

lemma float_gt_irrefl: "\<not> float_gt a a"
  by (cases a) auto

lemma float_lt_irrefl: "\<not> float_lt a a"
  by (cases a) auto

text \<open>
  Claim C2. For a record and a non-empty sequence of available metrics (each a label of
  the record with a non-null value), \<^verbatim>\<open>best\<close> and \<^verbatim>\<open>worst\<close> return members of the
  sequence; the value of \<^verbatim>\<open>best\<close> is at least, and the value of \<^verbatim>\<open>worst\<close> at most,
  every value of the sequence; every metric listed before \<^verbatim>\<open>best\<close> has a strictly
  smaller value and every metric listed before \<^verbatim>\<open>worst\<close> a strictly greater one, so
  ties go to the first metric listed; and when all values are equal both are the first
  metric of the sequence.
\<close>

theorem best_worst_first_extreme:
  assumes ne: "cols \<noteq> []"
    and av: "\<forall>m \<in> set cols. m \<in> set (index rw) \<and> vals (data rw) m \<noteq> None"
  shows "\<exists>b w. best rw cols = Inr b \<and> worst rw cols = Inr w \<and> b \<in> set cols \<and> w \<in> set cols
     \<and> (\<forall>m \<in> set cols. float_ge (vals (data rw) b) (vals (data rw) m))
     \<and> (\<forall>m \<in> set cols. float_ge (vals (data rw) m) (vals (data rw) w))
     \<and> (\<exists>pre post. cols = pre @ b # post
           \<and> (\<forall>m \<in> set pre. float_gt (vals (data rw) b) (vals (data rw) m)))
     \<and> (\<exists>pre post. cols = pre @ w # post
           \<and> (\<forall>m \<in> set pre. float_lt (vals (data rw) w) (vals (data rw) m)))
     \<and> ((\<forall>m \<in> set cols. vals (data rw) m = vals (data rw) (hd cols))
           \<longrightarrow> b = hd cols \<and> w = hd cols)"
proof -
  let ?v = "\<lambda>m. vals (data rw) m"
  from best_available [OF ne av] obtain b pre post
    where b: "best rw cols = Inr b" and bs: "cols = pre @ b # post"
      and bpre: "\<forall>m \<in> set pre. float_gt (?v b) (?v m)"
      and bpost: "\<forall>m \<in> set post. float_ge (?v b) (?v m)"
    by blast
  from worst_available [OF ne av] obtain w pre' post'
    where w: "worst rw cols = Inr w" and ws: "cols = pre' @ w # post'"
      and wpre: "\<forall>m \<in> set pre'. float_lt (?v w) (?v m)"
      and wpost: "\<forall>m \<in> set post'. float_ge (?v m) (?v w)"
    by blast
  from bs have bmem: "b \<in> set cols" by simp
  from ws have wmem: "w \<in> set cols" by simp
  have bmax: "\<forall>m \<in> set cols. float_ge (?v b) (?v m)"
  proof
    fix m assume "m \<in> set cols"
    with bs consider "m \<in> set pre" | "m = b" | "m \<in> set post" by auto
    then show "float_ge (?v b) (?v m)"
    proof cases
      case 1 with bpre show ?thesis by (simp add: float_gt_ge)
    next
      case 2 with av bmem show ?thesis by (simp add: float_ge_refl)
    next
      case 3 with bpost show ?thesis by simp
    qed
  qed
  have wmin: "\<forall>m \<in> set cols. float_ge (?v m) (?v w)"
  proof
    fix m assume "m \<in> set cols"
    with ws consider "m \<in> set pre'" | "m = w" | "m \<in> set post'" by auto
    then show "float_ge (?v m) (?v w)"
    proof cases
      case 1 with wpre show ?thesis by (simp add: float_lt_ge)
    next
      case 2 with av wmem show ?thesis by (simp add: float_ge_refl)
    next
      case 3 with wpost show ?thesis by simp
    qed
  qed
  have eq: "b = hd cols \<and> w = hd cols" if all: "\<forall>m \<in> set cols. ?v m = ?v (hd cols)"
  proof -
    have "pre = []"
    proof (rule ccontr)
      assume "pre \<noteq> []"
      then obtain m where m: "m \<in> set pre" by (cases pre) auto
      with bs all bmem have "?v m = ?v b" by simp
      with bpre m show False by (metis float_gt_irrefl)
    qed
    moreover have "pre' = []"
    proof (rule ccontr)
      assume "pre' \<noteq> []"
      then obtain m where m: "m \<in> set pre'" by (cases pre') auto
      with ws all wmem have "?v m = ?v w" by simp
      with wpre m show False by (metis float_lt_irrefl)
    qed
    ultimately show ?thesis using bs ws by simp
  qed
  from b w bmem wmem bmax wmin bs bpre ws wpre eq show ?thesis by blast
qed

theorem best_worst_first_extreme_witness:
  "[''outs_above_average_percentile'', ''Rdrs_percentile'', ''Rtot_percentile'',
    ''DRP_percentile''] \<noteq> []
   \<and> best \<lparr>index = columns partial_df, data = row_D\<rparr>
        [''outs_above_average_percentile'', ''Rdrs_percentile'', ''Rtot_percentile'',
         ''DRP_percentile''] = Inr ''outs_above_average_percentile''
   \<and> worst \<lparr>index = columns partial_df, data = row_D\<rparr>
        [''outs_above_average_percentile'', ''Rdrs_percentile'', ''Rtot_percentile'',
         ''DRP_percentile''] = Inr ''Rtot_percentile''
   \<and> vals row_D ''outs_above_average_percentile'' = vals row_D ''Rdrs_percentile''
   \<and> vals row_D ''Rtot_percentile'' = vals row_D ''DRP_percentile''"
  using best_worst_first_extreme
    [of "[''outs_above_average_percentile'', ''Rdrs_percentile'', ''Rtot_percentile'',
          ''DRP_percentile'']" "\<lparr>index = columns partial_df, data = row_D\<rparr>"]
  by (simp add: best_def worst_def py_max_def py_min_def getitem_def partial_df_def
      columns_no_FRV_def partial_fields vals_D_def)

section \<open>The disagreement index\<close>

lemma notna_length:
  "length (filter (\<lambda>c. c \<noteq> None) cs) = length (map the (filter (\<lambda>c. c \<noteq> None) cs))"
  by simp









lemma nanstd_only_oaa:
  "nanstd 0 (map (only_oaa_pct v) PCT_METRICS) = Some 0"
  by (simp add: nanstd_def nanvar_def PCT_METRICS_def only_oaa_pct_def)


lemma load_example: "load_df example_files ''defensive_metrics_24.csv'' = Inr example_df"
  by (simp add: load_df_def read_csv_def example_files_def example_csv_def example_df_def
      csv_A_def csv_B_def csv_C_def row_A_def row_B_def row_C_def nanstd_only_oaa)



section \<open>Loading twice\<close>








section \<open>Results of the leaderboard\<close>

lemma mset_insert_desc: "mset (insert_desc m r xs) = add_mset r (mset xs)"
  by (induction xs) auto

lemma set_insert_desc: "set (insert_desc m r xs) = insert r (set xs)"
  by (induction xs) auto

lemma float_ge_total: "a \<noteq> None \<Longrightarrow> b \<noteq> None \<Longrightarrow> \<not> float_ge a b \<Longrightarrow> float_ge b a"
  by (cases a; cases b) auto

lemma float_ge_trans: "float_ge a b \<Longrightarrow> float_ge b c \<Longrightarrow> float_ge a c"
  by (cases a; cases b; cases c) auto

lemma sorted_insert_desc:
  assumes "vals r m \<noteq> None" and "\<forall>x \<in> set xs. vals x m \<noteq> None"
    and "sorted_wrt (\<lambda>a b. float_ge (vals a m) (vals b m)) xs"
  shows "sorted_wrt (\<lambda>a b. float_ge (vals a m) (vals b m)) (insert_desc m r xs)"
  using assms
proof (induction xs)
  case Nil
  then show ?case by simp
next
  case (Cons x xs)
  show ?case
  proof (cases "float_ge (vals x m) (vals r m)")
    case True
    with Cons show ?thesis by (auto simp: set_insert_desc)
  next
    case False
    with Cons.prems have rx: "float_ge (vals r m) (vals x m)"
      by (simp add: float_ge_total)
    with Cons.prems have "\<forall>y \<in> set xs. float_ge (vals r m) (vals y m)"
      by (auto intro: float_ge_trans)
    with False rx Cons.prems show ?thesis by simp
  qed
qed

lemma mset_foldr_insert_desc: "mset (foldr (insert_desc m) xs []) = mset xs"
  by (induction xs) (auto simp: mset_insert_desc)

lemma sorted_foldr_insert_desc:
  "\<forall>x \<in> set xs. vals x m \<noteq> None \<Longrightarrow>
   sorted_wrt (\<lambda>a b. float_ge (vals a m) (vals b m)) (foldr (insert_desc m) xs [])"
proof (induction xs)
  case Nil
  then show ?case by simp
next
  case (Cons x xs)
  have "set (foldr (insert_desc m) xs []) = set xs"
    using mset_foldr_insert_desc [of m xs] by (metis set_mset_mset)
  with Cons show ?case by (simp add: sorted_insert_desc)
qed

lemma sort_values_stable: "sort_values m xs (stable_sort_desc m xs)"
proof -
  let ?nn = "filter (\<lambda>r. vals r m \<noteq> None) xs"
  let ?s = "foldr (insert_desc m) ?nn []"
  have len: "length ?s = length ?nn"
    using mset_foldr_insert_desc [of m ?nn] by (metis size_mset)
  have "sorted_wrt (\<lambda>a b. float_ge (vals a m) (vals b m)) ?s"
    by (rule sorted_foldr_insert_desc) simp
  with len show ?thesis
    by (simp add: sort_values_def stable_sort_desc_def mset_foldr_insert_desc)
qed

lemma sort_values_notna:
  assumes all: "\<forall>r \<in> set xs. vals r m \<noteq> None" and sv: "sort_values m xs ys"
  shows "mset ys = mset xs \<and> sorted_wrt (\<lambda>a b. float_ge (vals a m) (vals b m)) ys"
proof -
  from all have nn: "filter (\<lambda>r. vals r m \<noteq> None) xs = xs"
    and na: "filter (\<lambda>r. vals r m = None) xs = []"
    by (simp_all add: filter_empty_conv)
  from sv [unfolded sort_values_def Let_def nn na]
  have m: "mset (take (length xs) ys) = mset xs"
    and s: "sorted_wrt (\<lambda>a b. float_ge (vals a m) (vals b m)) (take (length xs) ys)"
    and d: "drop (length xs) ys = []"
    by blast+
  from d have "take (length xs) ys = ys" by simp
  with m s show ?thesis by simp
qed

lemma LABEL_PCT: "m \<in> set PCT_METRICS \<Longrightarrow> \<exists>l. LABEL m = Some l"
  by (auto simp: PCT_METRICS_def LABEL_def)


lemma lb_pool_column:
  "m \<in> set (columns df) \<Longrightarrow>
   lb_pool df t m = Inr ((candidates df t)\<lparr>rows := filter (\<lambda>r. vals r m \<noteq> None) (rows (candidates df t))\<rparr>)"
  by (simp add: lb_pool_def candidates_def Let_def)

lemma lb_pool_no_column: "m \<notin> set (columns df) \<Longrightarrow> lb_pool df t m = Inl KeyError"
  by (simp add: lb_pool_def Let_def)

lemma leader_Inr:
  assumes "leader df t m n (Inr fr)"
  shows "\<exists>ys l. mset ys = mset (filter (\<lambda>r. vals r m \<noteq> None) (rows (candidates df t)))
     \<and> sorted_wrt (\<lambda>a b. float_ge (vals a m) (vals b m)) ys
     \<and> LABEL m = Some l \<and> m \<in> set (columns df)
     \<and> fr = \<lparr>columns = [''Player'', ''Team'', l, ''disagreement_index''],
              rows = head n (map (select_columns m) ys)\<rparr>"
proof (cases "m \<in> set (columns df)")
  case False
  with assms show ?thesis by (simp add: leader_def lb_pool_no_column)
next
  case True
  let ?pool = "filter (\<lambda>r. vals r m \<noteq> None) (rows (candidates df t))"
  from assms True obtain ys where sv: "sort_values m ?pool ys"
    and res: "Inr fr = leader_of m n ys"
    by (auto simp: leader_def lb_pool_column)
  have "\<forall>r \<in> set ?pool. vals r m \<noteq> None" by simp
  from sort_values_notna [OF this sv]
  have perm: "mset ys = mset ?pool"
    and srt: "sorted_wrt (\<lambda>a b. float_ge (vals a m) (vals b m)) ys" by simp_all
  from res obtain l where "LABEL m = Some l"
    and "fr = \<lparr>columns = [''Player'', ''Team'', l, ''disagreement_index''],
              rows = head n (map (select_columns m) ys)\<rparr>"
    by (auto simp: leader_of_def Let_def split: option.splits)
  with perm srt True show ?thesis by blast
qed

lemma leader_stable:
  assumes "m \<in> set (columns df)" and "LABEL m = Some l"
  shows "leader df t m n (Inr \<lparr>columns = [''Player'', ''Team'', l, ''disagreement_index''],
      rows = head n (map (select_columns m)
        (stable_sort_desc m (filter (\<lambda>r. vals r m \<noteq> None) (rows (candidates df t)))))\<rparr>)"
  using assms sort_values_stable
  by (auto simp: leader_def lb_pool_column leader_of_def Let_def)

lemma leader_labelled:
  assumes "m \<in> set (columns df)" and "LABEL m = Some l" and "leader df t m n res"
  shows "\<exists>fr. res = Inr fr"
  using assms by (auto simp: leader_def lb_pool_column leader_of_def Let_def)


lemma sorted_wrt_take: "sorted_wrt P xs \<Longrightarrow> sorted_wrt P (take k xs)"
  by (metis append_take_drop_id sorted_wrt_append)

lemma select_columns_fields:
  "lb_Player (select_columns m r) = Player r" "lb_Team (select_columns m r) = Team r"
  "lb_value (select_columns m r) = vals r m"
  "lb_disagreement_index (select_columns m r) = disagreement_index r"
  by (simp_all add: select_columns_def)

lemma sort_values_notna_iff:
  assumes all: "\<forall>r \<in> set xs. vals r m \<noteq> None"
  shows "sort_values m xs ys \<longleftrightarrow>
     mset ys = mset xs \<and> sorted_wrt (\<lambda>a b. float_ge (vals a m) (vals b m)) ys"
proof
  assume "sort_values m xs ys"
  with all show "mset ys = mset xs \<and> sorted_wrt (\<lambda>a b. float_ge (vals a m) (vals b m)) ys"
    by (rule sort_values_notna)
next
  assume r: "mset ys = mset xs \<and> sorted_wrt (\<lambda>a b. float_ge (vals a m) (vals b m)) ys"
  from all have nn: "filter (\<lambda>r. vals r m \<noteq> None) xs = xs"
    and na: "filter (\<lambda>r. vals r m = None) xs = []"
    by (simp_all add: filter_empty_conv)
  from r have "length ys = length xs" by (metis size_mset)
  then have "take (length xs) ys = ys" "drop (length xs) ys = []" by simp_all
  with r show "sort_values m xs ys"
    unfolding sort_values_def Let_def nn na by simp
qed

lemma leader_outcomes:
  assumes col: "m \<in> set (columns df)" and l: "LABEL m = Some l"
  shows "leader df t m n res \<longleftrightarrow>
     (\<exists>ys. mset ys = mset (filter (\<lambda>r. vals r m \<noteq> None) (rows (candidates df t)))
        \<and> sorted_wrt (\<lambda>a b. float_ge (vals a m) (vals b m)) ys
        \<and> res = Inr \<lparr>columns = [''Player'', ''Team'', l, ''disagreement_index''],
                      rows = head n (map (select_columns m) ys)\<rparr>)"
proof -
  define pool where "pool = filter (\<lambda>r. vals r m \<noteq> None) (rows (candidates df t))"
  have nn: "\<forall>r \<in> set pool. vals r m \<noteq> None" by (simp add: pool_def)
  have of: "leader_of m n ys = Inr \<lparr>columns = [''Player'', ''Team'', l, ''disagreement_index''],
                      rows = head n (map (select_columns m) ys)\<rparr>" for ys
    by (simp add: leader_of_def l)
  have "lb_pool df t m = Inr ((candidates df t)\<lparr>rows := pool\<rparr>)"
    unfolding pool_def by (rule lb_pool_column [OF col])
  then have "leader df t m n res \<longleftrightarrow> (\<exists>ys. sort_values m pool ys \<and> res = leader_of m n ys)"
    by (simp add: leader_def)
  then have "leader df t m n res \<longleftrightarrow>
     (\<exists>ys. (mset ys = mset pool \<and> sorted_wrt (\<lambda>a b. float_ge (vals a m) (vals b m)) ys)
        \<and> res = Inr \<lparr>columns = [''Player'', ''Team'', l, ''disagreement_index''],
                      rows = head n (map (select_columns m) ys)\<rparr>)"
    by (simp only: sort_values_notna_iff [OF nn] of)
  then show ?thesis
    unfolding pool_def by (simp only: conj_assoc)
qed

lemma example_pool:
  "filter (\<lambda>r. vals r ''outs_above_average_percentile'' \<noteq> None)
     (rows (candidates example_df ''(All)'')) = [row_A, row_B, row_C]"
  by (simp add: candidates_def example_df_def example_fields only_oaa_pct_def)

lemma example_column: "''outs_above_average_percentile'' \<in> set (columns example_df)"
  by (simp add: example_df_def PCT_METRICS_def)

lemma example_label: "LABEL ''outs_above_average_percentile'' = Some ''OAA (pct)''"
  by (simp add: LABEL_def)

lemma example_sorted:
  "sorted_wrt (\<lambda>a b. float_ge (vals a ''outs_above_average_percentile'')
      (vals b ''outs_above_average_percentile'')) [row_B, row_A, row_C]"
  "sorted_wrt (\<lambda>a b. float_ge (vals a ''outs_above_average_percentile'')
      (vals b ''outs_above_average_percentile'')) [row_A, row_B, row_C]"
  by (simp_all add: example_fields only_oaa_pct_def)


lemma leader_example_AB:
  "leader example_df ''(All)'' ''outs_above_average_percentile'' 2 (Inr leaders_AB)"
proof -
  have "Inr leaders_AB
      = (Inr \<lparr>columns = [''Player'', ''Team'', ''OAA (pct)'', ''disagreement_index''],
             rows = head 2 (map (select_columns ''outs_above_average_percentile'')
               [row_A, row_B, row_C])\<rparr> :: error + leader_row frame)"
    by (simp add: head_def leaders_AB_def)
  then show ?thesis
    unfolding leader_outcomes [OF example_column example_label] example_pool
    using example_sorted(2) by blast
qed




text \<open>
  Claim C3. For a table that has the column of the sort metric, a sort metric of
  \<^verbatim>\<open>PCT_METRICS\<close> and a top-N bound \<open>n \<ge> 0\<close>, the leaderboard with team filter
  \<^verbatim>\<open>(All)\<close> always has a result and never raises; every result has at most \<open>n\<close> rows
  (exactly the smaller of \<open>n\<close> and the number of rows with a non-null metric), every
  row of it comes from a row of the table whose metric value is non-null, so rows with a
  null metric are excluded, and its rows are in non-increasing order of the metric.
\<close>

theorem leader_top_n:
  assumes metric: "sort_metric \<in> set PCT_METRICS"
    and col: "sort_metric \<in> set (columns df)"
    and n: "0 \<le> top_n"
  shows "(\<exists>fr. leader df ''(All)'' sort_metric top_n (Inr fr))
     \<and> (\<forall>res. leader df ''(All)'' sort_metric top_n res \<longrightarrow>
          (\<exists>fr. res = Inr fr
             \<and> length (rows fr) \<le> nat top_n
             \<and> length (rows fr)
                 = min (nat top_n) (length (filter (\<lambda>r. vals r sort_metric \<noteq> None) (rows df)))
             \<and> (\<forall>lr \<in> set (rows fr). lb_value lr \<noteq> None)
             \<and> sorted_wrt (\<lambda>a b. float_ge (lb_value a) (lb_value b)) (rows fr)
             \<and> (\<forall>lr \<in> set (rows fr). \<exists>r \<in> set (rows df).
                   vals r sort_metric \<noteq> None \<and> lr = select_columns sort_metric r)))"
proof -
  from metric obtain l where l: "LABEL sort_metric = Some l"
    using LABEL_PCT by blast
  let ?pool = "filter (\<lambda>r. vals r sort_metric \<noteq> None) (rows df)"
  have ex: "\<exists>fr. leader df ''(All)'' sort_metric top_n (Inr fr)"
    using leader_stable [OF col l] by blast
  have all: "\<exists>fr. res = Inr fr
             \<and> length (rows fr) \<le> nat top_n
             \<and> length (rows fr) = min (nat top_n) (length ?pool)
             \<and> (\<forall>lr \<in> set (rows fr). lb_value lr \<noteq> None)
             \<and> sorted_wrt (\<lambda>a b. float_ge (lb_value a) (lb_value b)) (rows fr)
             \<and> (\<forall>lr \<in> set (rows fr). \<exists>r \<in> set (rows df).
                   vals r sort_metric \<noteq> None \<and> lr = select_columns sort_metric r)"
    if run: "leader df ''(All)'' sort_metric top_n res" for res
  proof -
    from leader_labelled [OF col l run] obtain fr where res: "res = Inr fr" ..
    from leader_Inr [OF run [unfolded res]] obtain ys
      where perm: "mset ys = mset ?pool"
        and srt: "sorted_wrt (\<lambda>a b. float_ge (vals a sort_metric) (vals b sort_metric)) ys"
        and rows: "rows fr = head top_n (map (select_columns sort_metric) ys)"
      by (auto simp: candidates_def)
    from n rows have rows': "rows fr = take (nat top_n) (map (select_columns sort_metric) ys)"
      by (simp add: head_def)
    from perm have len: "length ys = length ?pool" by (metis size_mset)
    from perm have set: "set ys = set ?pool" by (metis set_mset_mset)
    have a: "length (rows fr) \<le> nat top_n" by (simp add: rows')
    have b: "length (rows fr) = min (nat top_n) (length ?pool)"
      by (simp add: rows' len min.commute)
    have mem: "\<exists>r \<in> set (rows df). vals r sort_metric \<noteq> None \<and> lr = select_columns sort_metric r"
      if "lr \<in> set (rows fr)" for lr
    proof -
      from that rows' have "lr \<in> set (map (select_columns sort_metric) ys)"
        by (auto dest: in_set_takeD)
      then obtain r where "r \<in> set ys" "lr = select_columns sort_metric r" by auto
      with set show ?thesis by auto
    qed
    have c: "\<forall>lr \<in> set (rows fr). lb_value lr \<noteq> None"
    proof
      fix lr assume "lr \<in> set (rows fr)"
      from mem [OF this] obtain r
        where "vals r sort_metric \<noteq> None" "lr = select_columns sort_metric r" by blast
      then show "lb_value lr \<noteq> None" by (simp add: select_columns_fields)
    qed
    have "sorted_wrt (\<lambda>a b. float_ge (lb_value a) (lb_value b))
        (map (select_columns sort_metric) ys)"
      using srt by (simp add: sorted_wrt_map select_columns_fields)
    then have d: "sorted_wrt (\<lambda>a b. float_ge (lb_value a) (lb_value b)) (rows fr)"
      unfolding rows' by (rule sorted_wrt_take)
    from res a b c d mem show ?thesis by blast
  qed
  from ex all show ?thesis by blast
qed

theorem leader_top_n_witness:
  "''outs_above_average_percentile'' \<in> set PCT_METRICS
   \<and> ''outs_above_average_percentile'' \<in> set (columns example_df)
   \<and> (0::int) \<le> 2
   \<and> leader example_df ''(All)'' ''outs_above_average_percentile'' 2 (Inr leaders_AB)
   \<and> length (rows leaders_AB) \<le> nat 2
   \<and> sorted_wrt (\<lambda>a b. float_ge (lb_value a) (lb_value b)) (rows leaders_AB)
   \<and> map lb_value (rows leaders_AB) = [Some 90, Some 90]"
proof -
  have h1: "''outs_above_average_percentile'' \<in> set PCT_METRICS"
    by (simp add: PCT_METRICS_def)
  have h3: "(0::int) \<le> 2" by simp
  from leader_top_n [OF h1 example_column h3]
  have "\<forall>res. leader example_df ''(All)'' ''outs_above_average_percentile'' 2 res \<longrightarrow>
          (\<exists>fr. res = Inr fr
             \<and> length (rows fr) \<le> nat 2
             \<and> length (rows fr)
                 = min (nat 2) (length (filter (\<lambda>r. vals r ''outs_above_average_percentile'' \<noteq> None)
                     (rows example_df)))
             \<and> (\<forall>lr \<in> set (rows fr). lb_value lr \<noteq> None)
             \<and> sorted_wrt (\<lambda>a b. float_ge (lb_value a) (lb_value b)) (rows fr)
             \<and> (\<forall>lr \<in> set (rows fr). \<exists>r \<in> set (rows example_df).
                   vals r ''outs_above_average_percentile'' \<noteq> None
                   \<and> lr = select_columns ''outs_above_average_percentile'' r))"
    by (rule conjunct2)
  with leader_example_AB obtain fr where "Inr leaders_AB = (Inr fr :: error + leader_row frame)"
    and "length (rows fr) \<le> nat 2"
    and "sorted_wrt (\<lambda>a b. float_ge (lb_value a) (lb_value b)) (rows fr)"
    by blast
  then have len: "length (rows leaders_AB) \<le> nat 2"
    and srt: "sorted_wrt (\<lambda>a b. float_ge (lb_value a) (lb_value b)) (rows leaders_AB)"
    by simp_all
  have v: "map lb_value (rows leaders_AB) = [Some 90, Some 90]"
    by (simp add: leaders_AB_def select_columns_fields example_fields only_oaa_pct_def)
  show ?thesis
    by (intro conjI) (rule h1 example_column h3 leader_example_AB len srt v)+
qed




section \<open>The table after loading\<close>















end
